theory Spec2Isabelle
  imports Main "HOL-Library.AList" "HOL-Library.Sublist" "HOL-Library.Multiset"
begin

section \<open>JavaScript values\<close>

text \<open>
  The values that reach RedditRequest.js from JSON bodies and from call arguments.
  \<open>JNum\<close> carries the integers (the numbers of this protocol are item counts and
  HTTP status codes); \<open>JNaN\<close> is the not-a-number value.
\<close>

datatype jsval =
    JUndefined
  | JNull
  | JBool bool
  | JNum int
  | JNaN
  | JStr string
  | JArr "jsval list"
  | JObj "(string \<times> jsval) list"

datatype js_error =
    TypeError
  | Error string

text \<open>ToBoolean: what \<open>||\<close>, \<open>!\<close> and \<open>if\<close> test.\<close>

fun truthy :: "jsval \<Rightarrow> bool" where
  "truthy JUndefined = False"
| "truthy JNull = False"
| "truthy (JBool b) = b"
| "truthy (JNum n) = (n \<noteq> 0)"
| "truthy JNaN = False"
| "truthy (JStr s) = (s \<noteq> [])"
| "truthy (JArr xs) = True"
| "truthy (JObj kvs) = True"

text \<open>\<open>a || b\<close>\<close>

definition js_or :: "jsval \<Rightarrow> jsval \<Rightarrow> jsval" where
  "js_or a b = (if truthy a then a else b)"

text \<open>
  \<open>v.k\<close> for the member names this file reads (\<open>data\<close>, \<open>before\<close>, \<open>after\<close>,
  \<open>children\<close>, \<open>stickied\<close>, \<open>name\<close>): a TypeError on \<open>undefined\<close> and \<open>null\<close>,
  the stored value on an object, \<open>undefined\<close> on everything else.
\<close>

fun get_prop :: "jsval \<Rightarrow> string \<Rightarrow> js_error + jsval" where
  "get_prop JUndefined k = Inl TypeError"
| "get_prop JNull k = Inl TypeError"
| "get_prop (JObj kvs) k = Inr (case map_of kvs k of None \<Rightarrow> JUndefined | Some v \<Rightarrow> v)"
| "get_prop v k = Inr JUndefined"

text \<open>
  The language's own functions that the file calls and that are not modelled further:
  \<open>JSON.parse\<close> (\<open>None\<close> when it throws), the \<open>he\<close> package's \<open>decode\<close>, and the
  coercing cases of \<open>+\<close> and \<open>-\<close> (an operand that is not a number).
\<close>

record js_builtins =
  JSON_parse :: "string \<Rightarrow> jsval option"
  he_decode :: "string \<Rightarrow> string"
  plus_coerce :: "jsval \<Rightarrow> jsval \<Rightarrow> jsval"
  minus_coerce :: "jsval \<Rightarrow> jsval \<Rightarrow> jsval"

fun js_plus :: "js_builtins \<Rightarrow> jsval \<Rightarrow> jsval \<Rightarrow> jsval" where
  "js_plus rt (JNum a) (JNum b) = JNum (a + b)"
| "js_plus rt a b = plus_coerce rt a b"

fun js_minus :: "js_builtins \<Rightarrow> jsval \<Rightarrow> jsval \<Rightarrow> jsval" where
  "js_minus rt (JNum a) (JNum b) = JNum (a - b)"
| "js_minus rt a b = minus_coerce rt a b"

text \<open>\<open>s.indexOf(pat)\<close>: the position of the first occurrence, or -1.\<close>

fun indexOf_from :: "string \<Rightarrow> string \<Rightarrow> int \<Rightarrow> int" where
  "indexOf_from [] pat i = (if pat = [] then i else -1)"
| "indexOf_from (c # cs) pat i =
     (if prefix pat (c # cs) then i else indexOf_from cs pat (i + 1))"

definition indexOf :: "string \<Rightarrow> string \<Rightarrow> int" where
  "indexOf s pat = indexOf_from s pat 0"

text \<open>\<open>String(n)\<close> for a non-negative integer: its decimal digits.\<close>

definition digit_char :: "nat \<Rightarrow> char" where
  "digit_char d = ''0123456789'' ! d"

fun js_String :: "nat \<Rightarrow> string" where
  "js_String n =
     (if n < 10 then [digit_char n] else js_String (n div 10) @ [digit_char (n mod 10)])"

declare js_String.simps [simp del]

text \<open>\<open>s.substring(0, 1)\<close>\<close>

definition substring01 :: "string \<Rightarrow> string" where
  "substring01 s = take 1 s"

text \<open>The leading decimal digit of a number, as the specification words the 5xx test.\<close>

fun first_digit :: "nat \<Rightarrow> nat" where
  "first_digit n = (if n < 10 then n else first_digit (n div 10))"

declare first_digit.simps [simp del]

section \<open>Data model\<close>

type_synonym headers = "(string \<times> string) list"

text \<open>An args object is mutable and shared by reference: it lives in a store.\<close>

type_synonym addr = nat
type_synonym args = "(string \<times> jsval) list"
type_synonym store = "addr \<Rightarrow> args"

record userConfig =
  isNode :: bool
  userAgent :: string
  serverOAuth :: string
  serverOAuthPort :: nat
  isOAuthType :: "string \<Rightarrow> bool"

record contextOptions =
  bypassAuth :: bool
  decodeHtmlEntities :: bool
  listingIndex :: "int option"

text \<open>
  Modelled from the spec: the Endpoint class (Endpoint.js) is not among the sources.
  The specification's Endpoint is a value object with the fields hostname, method,
  path, headers, args, contextOptions and port, built from the constructor's arguments;
  the args mapping is held by reference. The source reads the constructor's argument
  mapping back under two names, \<open>args\<close> and \<open>givenArgs\<close>; the specification has one
  mapping, so both name it. \<open>setHeaders\<close> replaces the headers of the object in place.
  The field \<open>method\<close> is written \<open>method_name\<close> here.
\<close>

record endpoint =
  hostname :: string
  method_name :: string
  path :: string
  headers :: headers
  args :: addr
  contextOptions :: contextOptions
  port :: nat

definition givenArgs :: "endpoint \<Rightarrow> addr" where
  "givenArgs e = args e"

definition Endpoint ::
  "userConfig \<Rightarrow> string \<Rightarrow> string \<Rightarrow> string \<Rightarrow> headers \<Rightarrow> addr \<Rightarrow> contextOptions \<Rightarrow> nat
     \<Rightarrow> endpoint" where
  "Endpoint cfg h m p hs a ctx prt =
     \<lparr>hostname = h, method_name = m, path = p, headers = hs, args = a,
      contextOptions = ctx, port = prt\<rparr>"

definition setHeaders :: "endpoint \<Rightarrow> headers \<Rightarrow> endpoint" where
  "setHeaders e hs = e\<lparr>headers := hs\<rparr>"

record response =
  r_status :: nat
  r_headers :: headers
  r_body :: "string option"

text \<open>
  Modelled from the spec: the ResponseError class (ResponseError.js) is not among the
  sources. A permanent error carries its message, the triggering response and the
  endpoint that produced it.
\<close>

record responseError =
  message :: string
  err_response :: response
  err_endpoint :: endpoint

definition ResponseError :: "string \<Rightarrow> response \<Rightarrow> endpoint \<Rightarrow> responseError" where
  "ResponseError msg r e = \<lparr>message = msg, err_response = r, err_endpoint = e\<rparr>"

text \<open>
  Modelled from the spec: the OAuth provider class is not among the sources. A provider
  answers the token-state queries \<open>hasAccessToken\<close>, \<open>canRefreshAccessToken\<close>,
  \<open>hasRefreshToken\<close> and \<open>getAuthorizationHeader\<close> from its internal state, and its
  actions \<open>refresh\<close>, \<open>auth\<close> and \<open>applicationOnlyAuth\<close> return a promise that rejects
  with a reason (\<open>Inl\<close>) or fulfils, leaving the provider in a new state (\<open>Inr\<close>).
\<close>

record provider =
  hasAccessToken :: bool
  canRefreshAccessToken :: bool
  hasRefreshToken :: bool
  getAuthorizationHeader :: string

record oauthActions =
  refresh :: "provider \<Rightarrow> string + provider"
  auth :: "provider \<Rightarrow> string + provider"
  applicationOnlyAuth :: "provider \<Rightarrow> string + provider"

text \<open>The fields \<open>_oauth\<close> and \<open>_oauthAppOnly\<close> of a RedditRequest.\<close>

record providers =
  oauth :: provider
  oauthAppOnly :: provider

section \<open>Request orchestrator\<close>

definition isApplicationOnly :: "providers \<Rightarrow> bool" where
  "isApplicationOnly w =
     (\<not> hasAccessToken (oauth w) \<and> \<not> canRefreshAccessToken (oauth w))"

definition buildHeaders :: "userConfig \<Rightarrow> providers \<Rightarrow> contextOptions \<Rightarrow> headers" where
  "buildHeaders cfg w ctx =
     (let hs = (if isNode cfg then AList.update ''User-Agent'' (userAgent cfg) [] else [])
      in if bypassAuth ctx \<or> isApplicationOnly w
         then AList.update ''Authorization'' (getAuthorizationHeader (oauthAppOnly w)) hs
         else AList.update ''Authorization'' (getAuthorizationHeader (oauth w)) hs)"

text \<open>What the handler does besides settling its promise.\<close>

datatype effect =
    CallApplicationOnlyAuth
  | CallRefresh
  | CallAuth
  | Emit string

text \<open>
  How a call of the handler ends: its promise resolves with an endpoint to retry,
  rejects with a ResponseError, rejects with the reason the reauthentication promise
  rejected with, or the call itself throws.
\<close>

datatype settled =
    Resolve endpoint
  | Reject responseError
  | RejectReason string
  | Throw js_error

record handled =
  outcome :: settled
  effects :: "effect list"
  providers_after :: providers
  endpoint_after :: endpoint

definition msg_insufficient_scope :: string where
  "msg_insufficient_scope = ''Insufficient scopes provided for this call''"

definition msg_not_found :: string where
  "msg_not_found = ''Page nod found. Is this a valid endpoint?''"

definition msg_token_expired :: string where
  "msg_token_expired =
     ''Access token has expired. Listen for '' @
     ''the \"access_token_expired\" event to '' @
     ''handle this gracefully in your app.''"

definition msg_unrecoverable :: string where
  "msg_unrecoverable =
     ''This call failed. '' @
     ''Does this call require a user? '' @
     ''Is the user missing reddit gold? '' @
     ''Trying to change a subreddit that the user does not moderate? '' @
     ''This is an unrecoverable error. Check the rest of the '' @
     ''error message for more information.''"

text \<open>
  \<open>wwwAuth && wwwAuth.indexOf('insufficient_scope') !== -1\<close>, where \<open>wwwAuth\<close> is
  \<open>response._headers['www-authenticate']\<close>.
\<close>

definition has_insufficient_scope :: "response \<Rightarrow> bool" where
  "has_insufficient_scope r =
     (case map_of (r_headers r) ''www-authenticate'' of
        None \<Rightarrow> False
      | Some wwwAuth \<Rightarrow> wwwAuth \<noteq> [] \<and> indexOf wwwAuth ''insufficient_scope'' \<noteq> - 1)"

text \<open>
  \<open>reauthPromise.then(() => ...)\<close>: \<open>None\<close> is the variable left \<open>undefined\<close>, on
  which \<open>.then\<close> throws; otherwise the promise of the action that was called, which
  rejects with a reason or fulfils with the providers in their new state. The callback
  replaces the headers of the failing endpoint in place and resolves with a new one.
\<close>

definition modifiedEndpoint :: "userConfig \<Rightarrow> providers \<Rightarrow> endpoint \<Rightarrow> endpoint" where
  "modifiedEndpoint cfg w e =
     Endpoint cfg (hostname e) (method_name e) (path e) (buildHeaders cfg w (contextOptions e))
       (givenArgs e) (contextOptions e) (port e)"

definition reauth_then ::
  "userConfig \<Rightarrow> providers \<Rightarrow> endpoint \<Rightarrow> (effect \<times> (string + providers)) option
     \<Rightarrow> handled" where
  "reauth_then cfg w e reauthPromise =
     (case reauthPromise of
        None \<Rightarrow>
          \<lparr>outcome = Throw TypeError, effects = [],
           providers_after = w, endpoint_after = e\<rparr>
      | Some (called, Inl reason) \<Rightarrow>
          \<lparr>outcome = RejectReason reason, effects = [called],
           providers_after = w, endpoint_after = e\<rparr>
      | Some (called, Inr w') \<Rightarrow>
          (let e' = setHeaders e (buildHeaders cfg w' (contextOptions e))
           in \<lparr>outcome = Resolve (modifiedEndpoint cfg w' e'), effects = [called],
               providers_after = w', endpoint_after = e'\<rparr>))"

definition responseErrorHandler ::
  "userConfig \<Rightarrow> oauthActions \<Rightarrow> providers \<Rightarrow> response \<Rightarrow> endpoint \<Rightarrow> handled" where
  "responseErrorHandler cfg act w r e =
     (if has_insufficient_scope r then
        \<lparr>outcome = Reject (ResponseError msg_insufficient_scope r e), effects = [],
         providers_after = w, endpoint_after = e\<rparr>
      else if r_status r = 404 then
        \<lparr>outcome = Reject (ResponseError msg_not_found r e), effects = [],
         providers_after = w, endpoint_after = e\<rparr>
      else if r_status r = 401 then
        (if isApplicationOnly w \<or> bypassAuth (contextOptions e) then
           reauth_then cfg w e
             (Some (CallApplicationOnlyAuth,
                    map_sum id (\<lambda>p. w\<lparr>oauthAppOnly := p\<rparr>)
                      (applicationOnlyAuth act (oauthAppOnly w))))
         else if canRefreshAccessToken (oauth w) then
           (if hasRefreshToken (oauth w) then
              reauth_then cfg w e
                (Some (CallRefresh, map_sum id (\<lambda>p. w\<lparr>oauth := p\<rparr>) (refresh act (oauth w))))
            else if isOAuthType cfg ''script'' then
              reauth_then cfg w e
                (Some (CallAuth, map_sum id (\<lambda>p. w\<lparr>oauth := p\<rparr>) (auth act (oauth w))))
            else reauth_then cfg w e None)
         else
           \<lparr>outcome = Reject (ResponseError msg_token_expired r e),
            effects = [Emit ''access_token_expired''],
            providers_after = w, endpoint_after = e\<rparr>)
      else if substring01 (js_String (r_status r)) = ''5'' then
        \<lparr>outcome = Resolve (modifiedEndpoint cfg w e), effects = [],
         providers_after = w, endpoint_after = e\<rparr>
      else
        \<lparr>outcome = Reject (ResponseError msg_unrecoverable r e), effects = [],
         providers_after = w, endpoint_after = e\<rparr>)"

text \<open>
  \<open>handleSuccessResponse\<close> returns \<open>when.resolve(data)\<close>: the promise is fulfilled
  with the parsed value, or with the string when \<open>JSON.parse\<close> throws.
\<close>

datatype 'a promise =
    Fulfilled 'a
  | Rejected js_error

definition handleSuccessResponse :: "js_builtins \<Rightarrow> response \<Rightarrow> endpoint \<Rightarrow> jsval promise" where
  "handleSuccessResponse rt r e =
     (let data0 = (case r_body r of None \<Rightarrow> [] | Some b \<Rightarrow> b);
          data1 = (if decodeHtmlEntities (contextOptions e) then he_decode rt data0 else data0)
      in Fulfilled (case JSON_parse rt data1 of Some v \<Rightarrow> v | None \<Rightarrow> JStr data1))"

section \<open>Listing cursor\<close>

text \<open>The variables \<open>count\<close>, \<open>limit\<close> and \<open>start\<close> that the closures of one listing share.\<close>

record listing_vars =
  count_var :: jsval
  limit_var :: jsval
  start_var :: jsval

text \<open>\<open>a.k\<close> on an args object, and \<open>a.k = v\<close> on the object at an address.\<close>

definition arg :: "args \<Rightarrow> string \<Rightarrow> jsval" where
  "arg a k = (case map_of a k of None \<Rightarrow> JUndefined | Some v \<Rightarrow> v)"

definition set_arg :: "store \<Rightarrow> addr \<Rightarrow> string \<Rightarrow> jsval \<Rightarrow> store" where
  "set_arg st a k v = st(a := AList.update k v (st a))"

definition getListing_vars :: "store \<Rightarrow> endpoint \<Rightarrow> listing_vars" where
  "getListing_vars st e =
     \<lparr>count_var = JNum 0,
      limit_var = js_or (arg (st (args e)) ''limit'') (JNum 25),
      start_var = js_or (arg (st (args e)) ''after'') JNull\<rparr>"

text \<open>
  A slice. \<open>s_endpoint\<close> is the \<open>endpoint\<close> that the slice's closures captured; the
  other fields are the properties the source assigns.
\<close>

record slice =
  s_get :: jsval
  s_count :: jsval
  s_before :: jsval
  s_after :: jsval
  s_allChildren :: "jsval list"
  s_empty :: bool
  s_children :: "jsval list"
  s_stickied :: "jsval list"
  s_endpoint :: endpoint

text \<open>\<open>xs[i]\<close>: \<open>undefined\<close> out of range.\<close>

definition js_index :: "jsval list \<Rightarrow> int \<Rightarrow> jsval" where
  "js_index xs i = (if 0 \<le> i \<and> i < int (length xs) then xs ! nat i else JUndefined)"

text \<open>\<open>xs.filter(f)\<close> with a callback that may throw.\<close>

fun js_filter :: "(jsval \<Rightarrow> js_error + bool) \<Rightarrow> jsval list \<Rightarrow> js_error + jsval list" where
  "js_filter f [] = Inr []"
| "js_filter f (x # xs) =
     (case f x of
        Inl err \<Rightarrow> Inl err
      | Inr keep \<Rightarrow>
          (case js_filter f xs of
             Inl err \<Rightarrow> Inl err
           | Inr ys \<Rightarrow> Inr (if keep then x # ys else ys)))"

text \<open>\<open>child.data.stickied\<close> as a condition, and \<open>child.data.name\<close>.\<close>

definition child_stickied :: "jsval \<Rightarrow> js_error + bool" where
  "child_stickied child =
     (case get_prop child ''data'' of
        Inl err \<Rightarrow> Inl err
      | Inr d \<Rightarrow> (case get_prop d ''stickied'' of Inl err \<Rightarrow> Inl err | Inr v \<Rightarrow> Inr (truthy v)))"

definition child_not_stickied :: "jsval \<Rightarrow> js_error + bool" where
  "child_not_stickied child = map_sum id Not (child_stickied child)"

definition child_name :: "jsval \<Rightarrow> js_error + jsval" where
  "child_name child =
     (case get_prop child ''data'' of Inl err \<Rightarrow> Inl err | Inr d \<Rightarrow> get_prop d ''name'')"

text \<open>A child that the second filter keeps: \<open>child.data.stickied\<close> can be read and is truthy.\<close>

definition is_stickied :: "jsval \<Rightarrow> bool" where
  "is_stickied child = (child_stickied child = Inr True)"

text \<open>
  \<open>.length\<close> and \<open>.filter\<close> of \<open>slice.allChildren\<close>: only an array has the method
  \<open>filter\<close>, on any other value the call throws a TypeError.
\<close>

fun as_array :: "jsval \<Rightarrow> js_error + jsval list" where
  "as_array (JArr xs) = Inr xs"
| "as_array v = Inl TypeError"

text \<open>
  The callback that \<open>getSlice\<close> runs on the value \<open>callRedditApi(endpoint)\<close> resolved
  with: it returns the slice or throws.
\<close>

definition getSlice_then :: "listing_vars \<Rightarrow> endpoint \<Rightarrow> jsval \<Rightarrow> js_error + slice" where
  "getSlice_then vars e resolved =
     (let result = (if resolved = JUndefined then JObj [] else resolved) in
      case (case result of
              JArr xs \<Rightarrow>
                (case listingIndex (contextOptions e) of
                   None \<Rightarrow> Inl (Error ''Must specify a `listingIndex` for this listing.'')
                 | Some i \<Rightarrow> Inr (js_index xs i))
            | _ \<Rightarrow> Inr result) of
        Inl err \<Rightarrow> Inl err
      | Inr listing \<Rightarrow>
      (case get_prop listing ''data'' of Inl err \<Rightarrow> Inl err | Inr d \<Rightarrow>
      (case get_prop d ''before'' of Inl err \<Rightarrow> Inl err | Inr b \<Rightarrow>
      (case get_prop d ''after'' of Inl err \<Rightarrow> Inl err | Inr a \<Rightarrow>
      (case get_prop d ''children'' of Inl err \<Rightarrow> Inl err | Inr c \<Rightarrow>
      (case as_array (js_or c (JArr [])) of Inl err \<Rightarrow> Inl err | Inr allChildren \<Rightarrow>
      (case js_filter child_not_stickied allChildren of Inl err \<Rightarrow> Inl err | Inr kids \<Rightarrow>
      (case js_filter child_stickied allChildren of Inl err \<Rightarrow> Inl err | Inr pinned \<Rightarrow>
         Inr \<lparr>s_get = result, s_count = count_var vars,
              s_before = js_or b JNull, s_after = js_or a JNull,
              s_allChildren = allChildren, s_empty = (length allChildren = 0),
              s_children = kids, s_stickied = pinned, s_endpoint = e\<rparr>))))))))"

text \<open>
  The navigation closures of a slice. Each returns the shared variables and the store
  as it leaves them, and the endpoint it hands to \<open>getSlice\<close> (the request it issues)
  or the error it throws. \<open>newArgs\<close> is the args object of the slice's endpoint itself.
\<close>

definition slice_next ::
  "js_builtins \<Rightarrow> userConfig \<Rightarrow> providers \<Rightarrow> listing_vars \<Rightarrow> store \<Rightarrow> slice
     \<Rightarrow> listing_vars \<times> store \<times> (js_error + endpoint)" where
  "slice_next rt cfg w vars st s =
     (let e = s_endpoint s;
          vars1 = vars\<lparr>count_var := js_plus rt (count_var vars) (limit_var vars)\<rparr>;
          newArgs = args e;
          st1 = set_arg st newArgs ''before'' JNull
      in case child_name (js_index (s_children s) (int (length (s_children s)) - 1)) of
           Inl err \<Rightarrow> (vars1, st1, Inl err)
         | Inr name \<Rightarrow>
             (let st2 = set_arg st1 newArgs ''after'' name;
                  st3 = set_arg st2 newArgs ''count'' (count_var vars1)
              in (vars1, st3,
                  Inr (Endpoint cfg (hostname e) (method_name e) (path e)
                         (buildHeaders cfg w (contextOptions e)) newArgs
                         (contextOptions e) (port e)))))"

definition slice_previous ::
  "js_builtins \<Rightarrow> userConfig \<Rightarrow> providers \<Rightarrow> listing_vars \<Rightarrow> store \<Rightarrow> slice
     \<Rightarrow> listing_vars \<times> store \<times> (js_error + endpoint)" where
  "slice_previous rt cfg w vars st s =
     (let e = s_endpoint s;
          vars1 = vars\<lparr>count_var := js_minus rt (count_var vars) (limit_var vars)\<rparr>;
          newArgs = args e
      in case child_name (js_index (s_children s) 0) of
           Inl err \<Rightarrow> (vars1, st, Inl err)
         | Inr name \<Rightarrow>
             (let st1 = set_arg st newArgs ''before'' name;
                  st2 = set_arg st1 newArgs ''after'' JNull;
                  st3 = set_arg st2 newArgs ''count'' (count_var vars1)
              in (vars1, st3,
                  Inr (Endpoint cfg (hostname e) (method_name e) (path e)
                         (buildHeaders cfg w (contextOptions e)) newArgs
                         (contextOptions e) (port e)))))"

definition slice_start ::
  "userConfig \<Rightarrow> providers \<Rightarrow> listing_vars \<Rightarrow> store \<Rightarrow> slice
     \<Rightarrow> listing_vars \<times> store \<times> (js_error + endpoint)" where
  "slice_start cfg w vars st s =
     (let e = s_endpoint s;
          vars1 = vars\<lparr>count_var := JNum 0\<rparr>;
          newArgs = args e;
          st1 = set_arg st newArgs ''before'' JNull;
          st2 = set_arg st1 newArgs ''after'' (start_var vars1);
          st3 = set_arg st2 newArgs ''count'' (count_var vars1)
      in (vars1, st3,
          Inr (Endpoint cfg (hostname e) (method_name e) (path e)
                 (buildHeaders cfg w (contextOptions e)) newArgs
                 (contextOptions e) (port e))))"

definition slice_requery ::
  "listing_vars \<Rightarrow> store \<Rightarrow> slice \<Rightarrow> listing_vars \<times> store \<times> (js_error + endpoint)" where
  "slice_requery vars st s = (vars, st, Inr (s_endpoint s))"

text \<open>
  A sequence of \<open>next()\<close>, \<open>previous()\<close> and \<open>start()\<close> calls on the slices of one
  listing: each call names the slice it is made on and the providers' state at that
  moment. A call that throws leaves the variables and the store as they were when it
  threw.
\<close>

datatype nav = Next | Previous | Start

fun navigate ::
  "js_builtins \<Rightarrow> userConfig \<Rightarrow> nav \<Rightarrow> providers \<Rightarrow> listing_vars \<Rightarrow> store \<Rightarrow> slice
     \<Rightarrow> listing_vars \<times> store \<times> (js_error + endpoint)" where
  "navigate rt cfg Next w vars st s = slice_next rt cfg w vars st s"
| "navigate rt cfg Previous w vars st s = slice_previous rt cfg w vars st s"
| "navigate rt cfg Start w vars st s = slice_start cfg w vars st s"

fun nav_run ::
  "js_builtins \<Rightarrow> userConfig \<Rightarrow> listing_vars \<Rightarrow> store \<Rightarrow> (nav \<times> providers \<times> slice) list
     \<Rightarrow> listing_vars \<times> store" where
  "nav_run rt cfg vars st [] = (vars, st)"
| "nav_run rt cfg vars st ((n, w, s) # calls) =
     (case navigate rt cfg n w vars st s of
        (vars', st', _) \<Rightarrow> nav_run rt cfg vars' st' calls)"

section \<open>Example inputs\<close>

definition ex_cfg :: userConfig where
  "ex_cfg = \<lparr>isNode = True, userAgent = ''snoocore-test'', serverOAuth = ''oauth.reddit.com'',
             serverOAuthPort = 443, isOAuthType = (\<lambda>t. t = ''explicit'')\<rparr>"

definition ex_ctx :: contextOptions where
  "ex_ctx = \<lparr>bypassAuth = False, decodeHtmlEntities = False, listingIndex = None\<rparr>"

definition ex_app :: provider where
  "ex_app = \<lparr>hasAccessToken = True, canRefreshAccessToken = False, hasRefreshToken = False,
             getAuthorizationHeader = ''bearer app''\<rparr>"

text \<open>A user with a permanent refresh token, one with an access token only, and one that
  reports it can refresh but holds no refresh token.\<close>

definition ex_user :: provider where
  "ex_user = \<lparr>hasAccessToken = True, canRefreshAccessToken = True, hasRefreshToken = True,
              getAuthorizationHeader = ''bearer old''\<rparr>"

definition ex_user_temporary :: provider where
  "ex_user_temporary =
     \<lparr>hasAccessToken = True, canRefreshAccessToken = False, hasRefreshToken = False,
      getAuthorizationHeader = ''bearer old''\<rparr>"

definition ex_user_no_token :: provider where
  "ex_user_no_token =
     \<lparr>hasAccessToken = True, canRefreshAccessToken = True, hasRefreshToken = False,
      getAuthorizationHeader = ''bearer old''\<rparr>"

definition renew :: "provider \<Rightarrow> string + provider" where
  "renew p = Inr (p\<lparr>hasAccessToken := True, getAuthorizationHeader := ''bearer new''\<rparr>)"

definition ex_actions :: oauthActions where
  "ex_actions = \<lparr>refresh = renew, auth = renew, applicationOnlyAuth = renew\<rparr>"

definition ex_actions_failing :: oauthActions where
  "ex_actions_failing =
     \<lparr>refresh = (\<lambda>p. Inl ''Reddit Error: invalid_grant''), auth = renew,
      applicationOnlyAuth = renew\<rparr>"

definition ex_response :: "nat \<Rightarrow> headers \<Rightarrow> response" where
  "ex_response n hs = \<lparr>r_status = n, r_headers = hs, r_body = None\<rparr>"

definition ex_scope_header :: headers where
  "ex_scope_header = [(''www-authenticate'', ''Bearer error=insufficient_scope'')]"

definition ex_providers :: providers where
  "ex_providers = \<lparr>oauth = ex_user, oauthAppOnly = ex_app\<rparr>"

definition ex_providers_temporary :: providers where
  "ex_providers_temporary = \<lparr>oauth = ex_user_temporary, oauthAppOnly = ex_app\<rparr>"

definition ex_providers_no_token :: providers where
  "ex_providers_no_token = \<lparr>oauth = ex_user_no_token, oauthAppOnly = ex_app\<rparr>"

definition ex_headers :: headers where
  "ex_headers = [(''User-Agent'', ''snoocore-test''), (''Authorization'', ''bearer old'')]"

definition ex_headers_new :: headers where
  "ex_headers_new = [(''User-Agent'', ''snoocore-test''), (''Authorization'', ''bearer new'')]"

definition ex_endpoint :: endpoint where
  "ex_endpoint =
     \<lparr>hostname = ''oauth.reddit.com'', method_name = ''get'', path = ''/r/test/new'',
      headers = ex_headers, args = 0, contextOptions = ex_ctx, port = 443\<rparr>"

text \<open>
  The listing of the specification's example: \<open>GET /r/test/new\<close> with \<open>limit=2\<close>
  returning the children A, B (stickied) and C.
\<close>

definition ex_rt :: js_builtins where
  "ex_rt =
     \<lparr>JSON_parse = (\<lambda>s. if s = ''[1]'' then Some (JArr [JNum 1]) else None),
      he_decode = (\<lambda>s. if s = ''&#91;1&#93;'' then ''[1]'' else s),
      plus_coerce = (\<lambda>a b. JNaN),
      minus_coerce = (\<lambda>a b. JNaN)\<rparr>"

definition ex_child :: "string \<Rightarrow> bool \<Rightarrow> jsval" where
  "ex_child n pinned =
     JObj [(''kind'', JStr ''t3''),
           (''data'', JObj [(''name'', JStr n), (''stickied'', JBool pinned)])]"

definition ex_listing :: jsval where
  "ex_listing =
     JObj [(''kind'', JStr ''Listing''),
           (''data'', JObj [(''before'', JNull), (''after'', JStr ''t3_c''),
                            (''children'', JArr [ex_child ''t3_a'' False,
                                                 ex_child ''t3_b'' True,
                                                 ex_child ''t3_c'' False])])]"

definition ex_store :: store where
  "ex_store = (\<lambda>a. [])(0 := [(''limit'', JNum 2)])"

definition ex_vars :: listing_vars where
  "ex_vars = \<lparr>count_var = JNum 0, limit_var = JNum 2, start_var = JNull\<rparr>"

definition ex_slice :: slice where
  "ex_slice =
     \<lparr>s_get = ex_listing, s_count = JNum 0, s_before = JNull, s_after = JStr ''t3_c'',
      s_allChildren = [ex_child ''t3_a'' False, ex_child ''t3_b'' True, ex_child ''t3_c'' False],
      s_empty = False,
      s_children = [ex_child ''t3_a'' False, ex_child ''t3_c'' False],
      s_stickied = [ex_child ''t3_b'' True],
      s_endpoint = ex_endpoint\<rparr>"

text \<open>The args object of the example once \<open>next()\<close> has been called on the slice.\<close>

definition ex_store_next :: store where
  "ex_store_next =
     (\<lambda>a. [])(0 := [(''limit'', JNum 2), (''before'', JNull), (''after'', JStr ''t3_c''),
                     (''count'', JNum 2)])"

text \<open>A listing that was asked for from a cursor on, and calls made on it.\<close>

definition ex_store_cursor :: store where
  "ex_store_cursor = (\<lambda>a. [])(0 := [(''limit'', JNum 2), (''after'', JStr ''t3_z'')])"

definition ex_calls :: "(nav \<times> providers \<times> slice) list" where
  "ex_calls =
     [(Next, ex_providers, ex_slice),
      (Next, ex_providers, ex_slice\<lparr>s_children := []\<rparr>),
      (Previous, ex_providers, ex_slice)]"

text \<open>
  The args object of the example once \<open>previous()\<close>, or \<open>start()\<close>, has been called on
  the slice instead, and once \<open>next()\<close> has thrown on a slice without a child to name.
\<close>

definition ex_store_previous :: store where
  "ex_store_previous =
     (\<lambda>a. [])(0 := [(''limit'', JNum 2), (''before'', JStr ''t3_a''), (''after'', JNull),
                     (''count'', JNum (- 2))])"

definition ex_store_start :: store where
  "ex_store_start =
     (\<lambda>a. [])(0 := [(''limit'', JNum 2), (''before'', JNull), (''after'', JNull),
                     (''count'', JNum 0)])"

definition ex_store_before :: store where
  "ex_store_before = (\<lambda>a. [])(0 := [(''limit'', JNum 2), (''before'', JNull)])"

text \<open>A page of the same listing whose only child is stickied.\<close>

definition ex_listing_pinned :: jsval where
  "ex_listing_pinned =
     JObj [(''kind'', JStr ''Listing''),
           (''data'', JObj [(''before'', JNull), (''after'', JNull),
                            (''children'', JArr [ex_child ''t3_b'' True])])]"

definition ex_slice_pinned :: slice where
  "ex_slice_pinned =
     \<lparr>s_get = ex_listing_pinned, s_count = JNum 0, s_before = JNull, s_after = JNull,
      s_allChildren = [ex_child ''t3_b'' True],
      s_empty = False,
      s_children = [],
      s_stickied = [ex_child ''t3_b'' True],
      s_endpoint = ex_endpoint\<rparr>"

section \<open>Facts about the language's functions\<close>

lemma indexOf_from_sublist:
  "0 \<le> i \<Longrightarrow> (indexOf_from s pat i \<noteq> - 1) = sublist pat s"
proof (induction s arbitrary: i)
  case Nil
  then show ?case by auto
next
  case (Cons c cs)
  then show ?case by (simp add: sublist_Cons_right)
qed

lemma indexOf_sublist: "(indexOf s pat \<noteq> - 1) = sublist pat s"
  by (simp add: indexOf_def indexOf_from_sublist)

text \<open>The header test of the handler is the substring test of the specification.\<close>

lemma has_insufficient_scope_iff:
  "has_insufficient_scope r =
     (\<exists>h. map_of (r_headers r) ''www-authenticate'' = Some h \<and> sublist ''insufficient_scope'' h)"
  by (auto simp: has_insufficient_scope_def indexOf_sublist split: option.splits)

lemma first_digit_less: "first_digit n < 10"
  by (induction n rule: first_digit.induct) (simp add: first_digit.simps)

lemma js_String_nonempty: "js_String n \<noteq> []"
  by (subst js_String.simps) simp

lemma substring01_js_String: "substring01 (js_String n) = [digit_char (first_digit n)]"
proof (induction n rule: js_String.induct)
  case (1 n)
  show ?case
  proof (cases "n < 10")
    case True
    then show ?thesis
      by (simp add: js_String.simps first_digit.simps substring01_def)
  next
    case False
    have "substring01 (js_String n) = substring01 (js_String (n div 10))"
      using False js_String_nonempty [of "n div 10"]
      by (subst js_String.simps) (cases "js_String (n div 10)"; simp add: substring01_def)
    then show ?thesis
      using False 1 by (simp add: first_digit.simps [of n])
  qed
qed

lemma digit_char_5: "d < 10 \<Longrightarrow> (digit_char d = CHR ''5'') = (d = 5)"
proof -
  assume "d < 10"
  then have "d \<in> {0, 1, 2, 3, 4, 5, 6, 7, 8, 9}" by auto
  then show ?thesis by (auto simp: digit_char_def)
qed

text \<open>The 5xx test of the handler looks at the leading decimal digit of the status.\<close>

lemma status_5xx_iff: "(substring01 (js_String n) = ''5'') = (first_digit n = 5)"
  by (simp add: substring01_js_String digit_char_5 first_digit_less)

lemma first_digit_401: "first_digit 401 = 4" "first_digit 404 = 4"
  by (simp_all add: first_digit.simps)

lemma first_digit_503: "first_digit 503 = 5"
  by (simp add: first_digit.simps)

section \<open>The error handler\<close>

lemma modifiedEndpoint_eq:
  "modifiedEndpoint cfg w e = e\<lparr>headers := buildHeaders cfg w (contextOptions e)\<rparr>"
  by (simp add: modifiedEndpoint_def Endpoint_def givenArgs_def)

lemma ex_scope_header_has: "has_insufficient_scope (ex_response n ex_scope_header)"
  by (simp add: has_insufficient_scope_def ex_response_def ex_scope_header_def indexOf_def)

lemma ex_no_header_has_not: "\<not> has_insufficient_scope (ex_response n [])"
  by (simp add: has_insufficient_scope_def ex_response_def)

text \<open>
  C2. A response whose \<open>www-authenticate\<close> header contains \<open>insufficient_scope\<close> is
  rejected with the insufficient-scope ResponseError, which carries the response and the
  endpoint, whatever its status is: the response is arbitrary here, so the test comes
  before the 404, 401 and 5xx ones. No effect is recorded (no reauthentication action,
  no event), the providers and the endpoint are left as they were, and nothing is
  resolved for a retry.
\<close>

theorem insufficient_scope_rejected:
  assumes "map_of (r_headers r) ''www-authenticate'' = Some h"
    and "sublist ''insufficient_scope'' h"
  shows "responseErrorHandler cfg act w r e =
           \<lparr>outcome = Reject (ResponseError msg_insufficient_scope r e), effects = [],
            providers_after = w, endpoint_after = e\<rparr>"
proof -
  have "has_insufficient_scope r"
    using assms by (auto simp: has_insufficient_scope_iff)
  then show ?thesis
    by (simp add: responseErrorHandler_def)
qed

theorem insufficient_scope_rejected_witness:
  "map_of (r_headers (ex_response 401 ex_scope_header)) ''www-authenticate''
     = Some ''Bearer error=insufficient_scope''
   \<and> sublist ''insufficient_scope'' ''Bearer error=insufficient_scope''
   \<and> responseErrorHandler ex_cfg ex_actions ex_providers
        (ex_response 401 ex_scope_header) ex_endpoint =
       \<lparr>outcome = Reject (ResponseError msg_insufficient_scope
                   (ex_response 401 ex_scope_header) ex_endpoint),
        effects = [], providers_after = ex_providers,
        endpoint_after = ex_endpoint\<rparr>"
proof -
  have h: "map_of (r_headers (ex_response 401 ex_scope_header)) ''www-authenticate''
     = Some ''Bearer error=insufficient_scope''"
    by (simp add: ex_response_def ex_scope_header_def)
  have s: "sublist ''insufficient_scope'' ''Bearer error=insufficient_scope''"
    using indexOf_sublist [of "''Bearer error=insufficient_scope''" "''insufficient_scope''"]
    by (simp add: indexOf_def)
  show ?thesis
    using h s insufficient_scope_rejected [OF h s] by simp
qed

text \<open>
  C3. A response whose status has the leading digit 5 and whose \<open>www-authenticate\<close>
  header does not name \<open>insufficient_scope\<close> (such a status is neither 404 nor 401) is
  resolved with one rebuilt endpoint: hostname, method, path, args, contextOptions and
  port of the failing endpoint, and the headers that \<open>buildHeaders\<close> computes from the
  providers as they are. No reauthentication action is called: no effect is recorded and
  the providers are unchanged.
\<close>

theorem server_error_retried:
  assumes "first_digit (r_status r) = 5"
    and "\<not> has_insufficient_scope r"
  shows "\<exists>e'. responseErrorHandler cfg act w r e =
             \<lparr>outcome = Resolve e', effects = [], providers_after = w, endpoint_after = e\<rparr>
           \<and> hostname e' = hostname e \<and> method_name e' = method_name e \<and> path e' = path e
           \<and> args e' = args e \<and> contextOptions e' = contextOptions e \<and> port e' = port e
           \<and> headers e' = buildHeaders cfg w (contextOptions e)"
proof -
  have "r_status r \<noteq> 404" "r_status r \<noteq> 401"
    using assms(1) first_digit_401 by auto
  then have "responseErrorHandler cfg act w r e =
      \<lparr>outcome = Resolve (modifiedEndpoint cfg w e), effects = [],
       providers_after = w, endpoint_after = e\<rparr>"
    using assms by (simp add: responseErrorHandler_def status_5xx_iff)
  then show ?thesis
    by (simp add: modifiedEndpoint_eq)
qed

lemma ex_buildHeaders: "buildHeaders ex_cfg ex_providers ex_ctx = ex_headers"
  by (simp add: buildHeaders_def ex_cfg_def ex_ctx_def ex_providers_def ex_user_def
      isApplicationOnly_def ex_headers_def)

lemma ex_buildHeaders_new:
  "buildHeaders ex_cfg
     (ex_providers\<lparr>oauth := ex_user\<lparr>hasAccessToken := True,
                                       getAuthorizationHeader := ''bearer new''\<rparr>\<rparr>) ex_ctx
   = ex_headers_new"
  by (simp add: buildHeaders_def ex_cfg_def ex_ctx_def ex_providers_def ex_user_def
      isApplicationOnly_def ex_headers_new_def)

lemma ex_providers_facts:
  "\<not> isApplicationOnly ex_providers"
  "canRefreshAccessToken (oauth ex_providers)"
  "hasRefreshToken (oauth ex_providers)"
  "\<not> isApplicationOnly ex_providers_temporary"
  "\<not> canRefreshAccessToken (oauth ex_providers_temporary)"
  "\<not> isApplicationOnly ex_providers_no_token"
  "canRefreshAccessToken (oauth ex_providers_no_token)"
  "\<not> hasRefreshToken (oauth ex_providers_no_token)"
  "\<not> bypassAuth (contextOptions ex_endpoint)"
  "\<not> isOAuthType ex_cfg ''script''"
  by (simp_all add: isApplicationOnly_def ex_providers_def ex_providers_temporary_def
      ex_providers_no_token_def ex_user_def ex_user_temporary_def ex_user_no_token_def
      ex_endpoint_def ex_ctx_def ex_cfg_def)

lemma ex_status: "r_status (ex_response n hs) = n"
  by (simp add: ex_response_def)

theorem server_error_retried_witness:
  "first_digit (r_status (ex_response 503 [])) = 5
   \<and> \<not> has_insufficient_scope (ex_response 503 [])
   \<and> (\<exists>e'. responseErrorHandler ex_cfg ex_actions ex_providers (ex_response 503 []) ex_endpoint =
             \<lparr>outcome = Resolve e', effects = [], providers_after = ex_providers,
              endpoint_after = ex_endpoint\<rparr>
           \<and> hostname e' = ''oauth.reddit.com'' \<and> method_name e' = ''get''
           \<and> path e' = ''/r/test/new'' \<and> args e' = 0 \<and> contextOptions e' = ex_ctx
           \<and> port e' = 443 \<and> headers e' = ex_headers)"
proof -
  have d: "first_digit (r_status (ex_response 503 [])) = 5"
    by (simp add: ex_response_def first_digit_503)
  show ?thesis
    using d ex_no_header_has_not [of 503] ex_buildHeaders
      server_error_retried [OF d ex_no_header_has_not, of ex_cfg ex_actions ex_providers
        ex_endpoint]
    by (simp add: ex_endpoint_def)
qed

text \<open>
  C4, as stated, fails: a 401 response that also carries the \<open>insufficient_scope\<close> header,
  handled while the user provider holds an access token it cannot refresh, is rejected
  with the insufficient-scope error and no event is emitted.
\<close>

theorem token_expired_counterexample:
  "r_status (ex_response 401 ex_scope_header) = 401
   \<and> \<not> isApplicationOnly ex_providers_temporary
   \<and> \<not> bypassAuth (contextOptions ex_endpoint)
   \<and> \<not> canRefreshAccessToken (oauth ex_providers_temporary)
   \<and> responseErrorHandler ex_cfg ex_actions ex_providers_temporary
        (ex_response 401 ex_scope_header) ex_endpoint =
       \<lparr>outcome = Reject (ResponseError msg_insufficient_scope
                   (ex_response 401 ex_scope_header) ex_endpoint),
        effects = [], providers_after = ex_providers_temporary,
        endpoint_after = ex_endpoint\<rparr>
   \<and> msg_insufficient_scope \<noteq> msg_token_expired"
  by (simp add: ex_status ex_providers_facts responseErrorHandler_def ex_scope_header_has
      msg_insufficient_scope_def msg_token_expired_def)

text \<open>
  C4, amended. A 401 response whose \<open>www-authenticate\<close> header does not name
  \<open>insufficient_scope\<close>, handled while the orchestrator is not application-only, the
  endpoint does not bypass auth and the user provider cannot refresh, is rejected with the
  token-expired ResponseError carrying the response and the endpoint; the only effect is
  one \<open>access_token_expired\<close> event, so no reauthentication action is called and nothing
  is resolved for a retry.
\<close>

theorem token_expired_unrecoverable:
  assumes "r_status r = 401"
    and "\<not> has_insufficient_scope r"
    and "\<not> isApplicationOnly w"
    and "\<not> bypassAuth (contextOptions e)"
    and "\<not> canRefreshAccessToken (oauth w)"
  shows "responseErrorHandler cfg act w r e =
           \<lparr>outcome = Reject (ResponseError msg_token_expired r e),
            effects = [Emit ''access_token_expired''],
            providers_after = w, endpoint_after = e\<rparr>"
  using assms by (simp add: responseErrorHandler_def)

theorem token_expired_unrecoverable_witness:
  "r_status (ex_response 401 []) = 401
   \<and> \<not> has_insufficient_scope (ex_response 401 [])
   \<and> \<not> isApplicationOnly ex_providers_temporary
   \<and> \<not> bypassAuth (contextOptions ex_endpoint)
   \<and> \<not> canRefreshAccessToken (oauth ex_providers_temporary)
   \<and> responseErrorHandler ex_cfg ex_actions ex_providers_temporary (ex_response 401 [])
        ex_endpoint =
       \<lparr>outcome = Reject (ResponseError msg_token_expired (ex_response 401 []) ex_endpoint),
        effects = [Emit ''access_token_expired''],
        providers_after = ex_providers_temporary, endpoint_after = ex_endpoint\<rparr>"
  using token_expired_unrecoverable [where r = "ex_response 401 []"
      and w = ex_providers_temporary and e = ex_endpoint and cfg = ex_cfg and act = ex_actions]
    ex_no_header_has_not [of 401]
  by (simp add: ex_status ex_providers_facts)

text \<open>
  C1, as stated, fails twice. When the refresh promise rejects, the handler's promise
  rejects with the same reason and no endpoint is resolved; and a 401 response that also
  carries the \<open>insufficient_scope\<close> header is rejected before any refresh is called.
\<close>

theorem refresh_then_retry_counterexample:
  "r_status (ex_response 401 []) = 401
   \<and> \<not> isApplicationOnly ex_providers
   \<and> \<not> bypassAuth (contextOptions ex_endpoint)
   \<and> canRefreshAccessToken (oauth ex_providers)
   \<and> hasRefreshToken (oauth ex_providers)
   \<and> responseErrorHandler ex_cfg ex_actions_failing ex_providers (ex_response 401 [])
        ex_endpoint =
       \<lparr>outcome = RejectReason ''Reddit Error: invalid_grant'', effects = [CallRefresh],
        providers_after = ex_providers, endpoint_after = ex_endpoint\<rparr>
   \<and> r_status (ex_response 401 ex_scope_header) = 401
   \<and> responseErrorHandler ex_cfg ex_actions ex_providers (ex_response 401 ex_scope_header)
        ex_endpoint =
       \<lparr>outcome = Reject (ResponseError msg_insufficient_scope
                   (ex_response 401 ex_scope_header) ex_endpoint),
        effects = [], providers_after = ex_providers, endpoint_after = ex_endpoint\<rparr>"
  by (simp add: ex_status ex_providers_facts responseErrorHandler_def ex_scope_header_has
      ex_no_header_has_not reauth_then_def ex_actions_failing_def)

text \<open>
  C1, amended. A 401 response whose \<open>www-authenticate\<close> header does not name
  \<open>insufficient_scope\<close>, handled while the orchestrator is not application-only and the
  endpoint does not bypass auth, with a user provider that can refresh and holds a
  refresh token: exactly one reauthentication action is called, \<open>refresh\<close>. If its
  promise fulfils, the handler resolves with one new endpoint that has the hostname,
  method, path, args, contextOptions and port of the failing endpoint and the headers
  that \<open>buildHeaders\<close> computes from the refreshed providers (the failing endpoint's own
  headers are replaced by the same ones). If it rejects, the handler rejects with the
  same reason.
\<close>

theorem refresh_then_retry:
  assumes "r_status r = 401"
    and "\<not> has_insufficient_scope r"
    and "\<not> isApplicationOnly w"
    and "\<not> bypassAuth (contextOptions e)"
    and "canRefreshAccessToken (oauth w)"
    and "hasRefreshToken (oauth w)"
  shows "effects (responseErrorHandler cfg act w r e) = [CallRefresh]
     \<and> (case refresh act (oauth w) of
          Inl reason \<Rightarrow>
            responseErrorHandler cfg act w r e =
              \<lparr>outcome = RejectReason reason, effects = [CallRefresh],
               providers_after = w, endpoint_after = e\<rparr>
        | Inr p \<Rightarrow>
            (\<exists>e'. responseErrorHandler cfg act w r e =
               \<lparr>outcome = Resolve e', effects = [CallRefresh],
                providers_after = w\<lparr>oauth := p\<rparr>,
                endpoint_after = e\<lparr>headers := headers e'\<rparr>\<rparr>
             \<and> hostname e' = hostname e \<and> method_name e' = method_name e \<and> path e' = path e
             \<and> args e' = args e \<and> contextOptions e' = contextOptions e \<and> port e' = port e
             \<and> headers e' = buildHeaders cfg (w\<lparr>oauth := p\<rparr>) (contextOptions e)))"
proof (cases "refresh act (oauth w)")
  case (Inl reason)
  then show ?thesis
    using assms by (simp add: responseErrorHandler_def reauth_then_def)
next
  case (Inr p)
  define hs where "hs = buildHeaders cfg (w\<lparr>oauth := p\<rparr>) (contextOptions e)"
  have "responseErrorHandler cfg act w r e =
          \<lparr>outcome = Resolve (e\<lparr>headers := hs\<rparr>), effects = [CallRefresh],
           providers_after = w\<lparr>oauth := p\<rparr>, endpoint_after = e\<lparr>headers := hs\<rparr>\<rparr>"
    using assms Inr
    by (simp add: responseErrorHandler_def reauth_then_def modifiedEndpoint_eq setHeaders_def
        Let_def hs_def)
  then show ?thesis
    using Inr by (simp add: hs_def)
qed

theorem refresh_then_retry_witness:
  "r_status (ex_response 401 []) = 401
   \<and> \<not> has_insufficient_scope (ex_response 401 [])
   \<and> \<not> isApplicationOnly ex_providers
   \<and> \<not> bypassAuth (contextOptions ex_endpoint)
   \<and> canRefreshAccessToken (oauth ex_providers)
   \<and> hasRefreshToken (oauth ex_providers)
   \<and> refresh ex_actions (oauth ex_providers) =
       Inr (ex_user\<lparr>hasAccessToken := True, getAuthorizationHeader := ''bearer new''\<rparr>)
   \<and> effects (responseErrorHandler ex_cfg ex_actions ex_providers (ex_response 401 [])
        ex_endpoint) = [CallRefresh]
   \<and> outcome (responseErrorHandler ex_cfg ex_actions ex_providers (ex_response 401 [])
        ex_endpoint) = Resolve (ex_endpoint\<lparr>headers := ex_headers_new\<rparr>)
   \<and> endpoint_after (responseErrorHandler ex_cfg ex_actions ex_providers (ex_response 401 [])
        ex_endpoint) = ex_endpoint\<lparr>headers := ex_headers_new\<rparr>"
proof -
  have r: "refresh ex_actions (oauth ex_providers) =
       Inr (ex_user\<lparr>hasAccessToken := True, getAuthorizationHeader := ''bearer new''\<rparr>)"
    by (simp add: ex_actions_def renew_def ex_providers_def)
  have "r_status (ex_response 401 []) = 401" "\<not> has_insufficient_scope (ex_response 401 [])"
    by (simp_all add: ex_status ex_no_header_has_not)
  from refresh_then_retry [OF this ex_providers_facts(1) ex_providers_facts(9)
      ex_providers_facts(2) ex_providers_facts(3), where cfg = ex_cfg and act = ex_actions]
  obtain e' where
    h: "responseErrorHandler ex_cfg ex_actions ex_providers (ex_response 401 []) ex_endpoint =
          \<lparr>outcome = Resolve e', effects = [CallRefresh],
           providers_after = ex_providers\<lparr>oauth := ex_user\<lparr>hasAccessToken := True,
             getAuthorizationHeader := ''bearer new''\<rparr>\<rparr>,
           endpoint_after = ex_endpoint\<lparr>headers := headers e'\<rparr>\<rparr>"
    and f: "hostname e' = hostname ex_endpoint" "method_name e' = method_name ex_endpoint"
      "path e' = path ex_endpoint" "args e' = args ex_endpoint"
      "contextOptions e' = contextOptions ex_endpoint" "port e' = port ex_endpoint"
    and hs: "headers e' = buildHeaders ex_cfg
           (ex_providers\<lparr>oauth := ex_user\<lparr>hasAccessToken := True,
             getAuthorizationHeader := ''bearer new''\<rparr>\<rparr>) (contextOptions ex_endpoint)"
    unfolding r by auto
  have c: "contextOptions ex_endpoint = ex_ctx"
    by (simp add: ex_endpoint_def)
  have "e' = ex_endpoint\<lparr>headers := ex_headers_new\<rparr>"
    using f hs by (simp add: c ex_buildHeaders_new)
  then show ?thesis
    using h r ex_no_header_has_not [of 401]
    by (simp add: ex_status ex_providers_facts)
qed

text \<open>
  C10. There is a 401 response on which the handler neither resolves nor rejects: when
  the response has no \<open>insufficient_scope\<close> header, the orchestrator is not
  application-only, the endpoint does not bypass auth, the user provider reports that it
  can refresh but holds no refresh token, and the grant type is not \<open>script\<close>, no branch
  assigns \<open>reauthPromise\<close>; no reauthentication action is called (no effect is
  recorded) and \<open>.then\<close> on the undefined value throws a TypeError out of the handler.
\<close>

theorem reauth_undefined_throws:
  assumes "r_status r = 401"
    and "\<not> has_insufficient_scope r"
    and "\<not> isApplicationOnly w"
    and "\<not> bypassAuth (contextOptions e)"
    and "canRefreshAccessToken (oauth w)"
    and "\<not> hasRefreshToken (oauth w)"
    and "\<not> isOAuthType cfg ''script''"
  shows "responseErrorHandler cfg act w r e =
           \<lparr>outcome = Throw TypeError, effects = [], providers_after = w, endpoint_after = e\<rparr>"
  using assms by (simp add: responseErrorHandler_def reauth_then_def)

theorem reauth_undefined_throws_witness:
  "r_status (ex_response 401 []) = 401
   \<and> \<not> has_insufficient_scope (ex_response 401 [])
   \<and> \<not> isApplicationOnly ex_providers_no_token
   \<and> \<not> bypassAuth (contextOptions ex_endpoint)
   \<and> canRefreshAccessToken (oauth ex_providers_no_token)
   \<and> \<not> hasRefreshToken (oauth ex_providers_no_token)
   \<and> \<not> isOAuthType ex_cfg ''script''
   \<and> responseErrorHandler ex_cfg ex_actions ex_providers_no_token (ex_response 401 [])
        ex_endpoint =
       \<lparr>outcome = Throw TypeError, effects = [], providers_after = ex_providers_no_token,
        endpoint_after = ex_endpoint\<rparr>"
  using reauth_undefined_throws [where r = "ex_response 401 []"
      and w = ex_providers_no_token and e = ex_endpoint and cfg = ex_cfg and act = ex_actions]
    ex_no_header_has_not [of 401]
  by (simp add: ex_status ex_providers_facts)

section \<open>Success handling\<close>

text \<open>
  C5. \<open>handleSuccessResponse\<close> always resolves. With \<open>body\<close> the response body, or the
  empty string when it is absent, and \<open>decoded\<close> the body after HTML-entity decoding when
  \<open>contextOptions.decodeHtmlEntities\<close> is set and the body itself otherwise, it is
  \<open>decoded\<close> that \<open>JSON.parse\<close> is given: when it parses, the promise is fulfilled with the
  parsed value; when \<open>JSON.parse\<close> throws, with the string \<open>decoded\<close> unchanged.
\<close>

theorem handleSuccessResponse_resolves:
  assumes "body = (case r_body r of None \<Rightarrow> [] | Some b \<Rightarrow> b)"
    and "decoded = (if decodeHtmlEntities (contextOptions e) then he_decode rt body else body)"
  shows "(\<exists>v. handleSuccessResponse rt r e = Fulfilled v)
     \<and> (\<forall>v. JSON_parse rt decoded = Some v \<longrightarrow> handleSuccessResponse rt r e = Fulfilled v)
     \<and> (JSON_parse rt decoded = None \<longrightarrow> handleSuccessResponse rt r e = Fulfilled (JStr decoded))"
  using assms by (simp add: handleSuccessResponse_def Let_def)

theorem handleSuccessResponse_resolves_witness:
  "handleSuccessResponse ex_rt (ex_response 200 []) ex_endpoint = Fulfilled (JStr [])
   \<and> handleSuccessResponse ex_rt ((ex_response 200 [])\<lparr>r_body := Some ''&#91;1&#93;''\<rparr>)
        ex_endpoint = Fulfilled (JStr ''&#91;1&#93;'')
   \<and> handleSuccessResponse ex_rt ((ex_response 200 [])\<lparr>r_body := Some ''&#91;1&#93;''\<rparr>)
        (ex_endpoint\<lparr>contextOptions := ex_ctx\<lparr>decodeHtmlEntities := True\<rparr>\<rparr>)
       = Fulfilled (JArr [JNum 1])"
proof -
  have a: "handleSuccessResponse ex_rt (ex_response 200 []) ex_endpoint = Fulfilled (JStr [])"
    using handleSuccessResponse_resolves [where r = "ex_response 200 []" and e = ex_endpoint
        and rt = ex_rt and body = "[]" and decoded = "[]"]
    by (simp add: ex_response_def ex_endpoint_def ex_ctx_def ex_rt_def)
  have b: "handleSuccessResponse ex_rt ((ex_response 200 [])\<lparr>r_body := Some ''&#91;1&#93;''\<rparr>)
        ex_endpoint = Fulfilled (JStr ''&#91;1&#93;'')"
    using handleSuccessResponse_resolves
      [where r = "(ex_response 200 [])\<lparr>r_body := Some ''&#91;1&#93;''\<rparr>"
        and e = ex_endpoint and rt = ex_rt and body = "''&#91;1&#93;''"
        and decoded = "''&#91;1&#93;''"]
    by (simp add: ex_response_def ex_endpoint_def ex_ctx_def ex_rt_def)
  have c: "handleSuccessResponse ex_rt ((ex_response 200 [])\<lparr>r_body := Some ''&#91;1&#93;''\<rparr>)
        (ex_endpoint\<lparr>contextOptions := ex_ctx\<lparr>decodeHtmlEntities := True\<rparr>\<rparr>)
       = Fulfilled (JArr [JNum 1])"
    using handleSuccessResponse_resolves
      [where r = "(ex_response 200 [])\<lparr>r_body := Some ''&#91;1&#93;''\<rparr>"
        and e = "ex_endpoint\<lparr>contextOptions := ex_ctx\<lparr>decodeHtmlEntities := True\<rparr>\<rparr>"
        and rt = ex_rt and body = "''&#91;1&#93;''" and decoded = "''[1]''"]
    by (simp add: ex_response_def ex_endpoint_def ex_ctx_def ex_rt_def)
  from a b c show ?thesis by simp
qed

section \<open>Listing slices\<close>

lemma js_filter_Inr:
  "js_filter f xs = Inr ys \<Longrightarrow>
     ys = filter (\<lambda>x. f x = Inr True) xs \<and> (\<forall>x \<in> set xs. \<exists>b. f x = Inr b)"
proof (induction xs arbitrary: ys)
  case Nil
  then show ?case by simp
next
  case (Cons x xs)
  from Cons.prems obtain keep zs where k: "f x = Inr keep" and z: "js_filter f xs = Inr zs"
    and y: "ys = (if keep then x # zs else zs)"
    by (auto split: sum.splits)
  from Cons.IH [OF z] k y show ?case by auto
qed

lemma child_not_stickied_True:
  "(child_not_stickied c = Inr True) = (child_stickied c = Inr False)"
  by (cases "child_stickied c") (auto simp: child_not_stickied_def)

lemma getSlice_then_fields:
  assumes "getSlice_then vars e resolved = Inr s"
  shows "js_filter child_not_stickied (s_allChildren s) = Inr (s_children s)"
    and "js_filter child_stickied (s_allChildren s) = Inr (s_stickied s)"
    and "s_empty s = (length (s_allChildren s) = 0)"
    and "s_endpoint s = e"
    and "s_count s = count_var vars"
  using assms
  by (auto simp: getSlice_then_def Let_def split: sum.splits jsval.splits option.splits if_splits)

text \<open>In a slice that was built, the stickied flag of every child could be read.\<close>

lemma built_children_readable:
  assumes "getSlice_then vars e resolved = Inr s" and "c \<in> set (s_allChildren s)"
  shows "\<exists>b. child_stickied c = Inr b"
  using js_filter_Inr [OF getSlice_then_fields(2) [OF assms(1)]] assms(2) by blast

lemma built_children:
  assumes "getSlice_then vars e resolved = Inr s"
  shows "s_children s = filter (\<lambda>c. \<not> is_stickied c) (s_allChildren s)"
proof -
  have "s_children s = filter (\<lambda>c. child_not_stickied c = Inr True) (s_allChildren s)"
    using js_filter_Inr [OF getSlice_then_fields(1) [OF assms]] by simp
  also have "\<dots> = filter (\<lambda>c. \<not> is_stickied c) (s_allChildren s)"
  proof (rule filter_cong [OF refl])
    fix c assume "c \<in> set (s_allChildren s)"
    then obtain b where "child_stickied c = Inr b"
      using built_children_readable [OF assms] by blast
    then show "(child_not_stickied c = Inr True) = (\<not> is_stickied c)"
      by (simp add: child_not_stickied_True is_stickied_def)
  qed
  finally show ?thesis .
qed

lemma built_stickied:
  assumes "getSlice_then vars e resolved = Inr s"
  shows "s_stickied s = filter is_stickied (s_allChildren s)"
  using js_filter_Inr [OF getSlice_then_fields(2) [OF assms]]
  by (simp add: is_stickied_def [abs_def])

lemma ex_getSlice_then: "getSlice_then ex_vars ex_endpoint ex_listing = Inr ex_slice"
  by (simp add: getSlice_then_def ex_listing_def ex_child_def ex_slice_def ex_vars_def
      js_or_def child_not_stickied_def child_stickied_def ex_endpoint_def ex_ctx_def)

text \<open>
  C6. In every slice that \<open>getSlice\<close> builds, \<open>children\<close> is \<open>allChildren\<close> with the
  stickied children removed and \<open>stickied\<close> is \<open>allChildren\<close> with only those kept, both
  in the order of \<open>allChildren\<close>: each is a subsequence of \<open>allChildren\<close>, no child is
  in both, and together they hold every child of \<open>allChildren\<close> as often as it occurs
  there. \<open>empty\<close> is true exactly when \<open>allChildren\<close> has length 0.
\<close>

theorem slice_partition:
  assumes "getSlice_then vars e resolved = Inr s"
  shows "s_children s = filter (\<lambda>c. \<not> is_stickied c) (s_allChildren s)
     \<and> s_stickied s = filter is_stickied (s_allChildren s)
     \<and> subseq (s_children s) (s_allChildren s)
     \<and> subseq (s_stickied s) (s_allChildren s)
     \<and> set (s_children s) \<inter> set (s_stickied s) = {}
     \<and> mset (s_children s) + mset (s_stickied s) = mset (s_allChildren s)
     \<and> s_empty s = (length (s_allChildren s) = 0)"
proof -
  note c = built_children [OF assms] and p = built_stickied [OF assms]
  have "set (s_children s) \<inter> set (s_stickied s) = {}"
    unfolding c p by auto
  moreover have "mset (s_children s) + mset (s_stickied s) = mset (s_allChildren s)"
    unfolding c p by (simp add: add.commute)
  ultimately show ?thesis
    using c p getSlice_then_fields(3) [OF assms] by simp
qed

theorem slice_partition_witness:
  "getSlice_then ex_vars ex_endpoint ex_listing = Inr ex_slice
   \<and> s_children ex_slice = [ex_child ''t3_a'' False, ex_child ''t3_c'' False]
   \<and> s_stickied ex_slice = [ex_child ''t3_b'' True]
   \<and> s_children ex_slice = filter (\<lambda>c. \<not> is_stickied c) (s_allChildren ex_slice)
   \<and> s_stickied ex_slice = filter is_stickied (s_allChildren ex_slice)
   \<and> mset (s_children ex_slice) + mset (s_stickied ex_slice) = mset (s_allChildren ex_slice)
   \<and> s_empty ex_slice = False"
  using slice_partition [OF ex_getSlice_then] ex_getSlice_then
  by (simp add: ex_slice_def)

section \<open>Navigation\<close>

lemma arg_update: "arg (AList.update k v al) k' = (if k' = k then v else arg al k')"
  by (simp add: arg_def update_conv')

lemma set_arg_apply:
  "set_arg st a k v a' = (if a' = a then AList.update k v (st a) else st a')"
  by (simp add: set_arg_def)

text \<open>The name of the last child of a non-empty array is what \<open>next\<close> reads.\<close>

lemma js_index_last: "xs \<noteq> [] \<Longrightarrow> js_index xs (int (length xs) - 1) = last xs"
  by (cases xs rule: rev_cases) (simp_all add: js_index_def nat_diff_distrib')

lemma js_index_first: "xs \<noteq> [] \<Longrightarrow> js_index xs 0 = hd xs"
  by (cases xs) (simp_all add: js_index_def)

lemma get_prop_Inr: "v \<noteq> JUndefined \<Longrightarrow> v \<noteq> JNull \<Longrightarrow> \<exists>x. get_prop v k = Inr x"
  by (cases v) simp_all

lemma child_stickied_name:
  assumes "child_stickied c = Inr b"
  shows "\<exists>n. child_name c = Inr n"
proof -
  from assms obtain d x where d: "get_prop c ''data'' = Inr d"
    and "get_prop d ''stickied'' = Inr x"
    by (auto simp: child_stickied_def split: sum.splits)
  then have "d \<noteq> JUndefined" "d \<noteq> JNull"
    by auto
  then obtain n where "get_prop d ''name'' = Inr n"
    using get_prop_Inr by blast
  with d show ?thesis
    by (simp add: child_name_def)
qed

lemma built_child_name:
  assumes "getSlice_then vars e resolved = Inr s" and "c \<in> set (s_children s)"
  shows "\<exists>n. child_name c = Inr n"
proof -
  have "c \<in> set (s_allChildren s)"
    using assms(2) built_children [OF assms(1)] by simp
  then show ?thesis
    using built_children_readable [OF assms(1)] child_stickied_name by blast
qed

text \<open>No navigation call assigns \<open>limit\<close> or \<open>start\<close>.\<close>

lemma navigate_keeps:
  assumes "navigate rt cfg n w vars st s = (vars', st', r)"
  shows "limit_var vars' = limit_var vars \<and> start_var vars' = start_var vars"
  using assms
  by (cases n)
     (auto simp: slice_next_def slice_previous_def slice_start_def Let_def split: sum.splits)

lemma nav_run_keeps:
  "nav_run rt cfg vars st calls = (vars', st') \<Longrightarrow>
     limit_var vars' = limit_var vars \<and> start_var vars' = start_var vars"
proof (induction calls arbitrary: vars st)
  case Nil
  then show ?case by simp
next
  case (Cons call calls)
  obtain n w s where call: "call = (n, w, s)"
    by (cases call) auto
  obtain vars1 st1 r where step: "navigate rt cfg n w vars st s = (vars1, st1, r)"
    by (cases "navigate rt cfg n w vars st s") auto
  with Cons.prems call have "nav_run rt cfg vars1 st1 calls = (vars', st')"
    by simp
  from Cons.IH [OF this] navigate_keeps [OF step] show ?case
    by simp
qed

lemma getListing_vars_simps:
  "count_var (getListing_vars st e) = JNum 0"
  "limit_var (getListing_vars st e) = js_or (arg (st (args e)) ''limit'') (JNum 25)"
  "start_var (getListing_vars st e) = js_or (arg (st (args e)) ''after'') JNull"
  by (simp_all add: getListing_vars_def)

lemma ex_getListing_vars: "getListing_vars ex_store ex_endpoint = ex_vars"
  by (simp add: getListing_vars_def ex_store_def ex_endpoint_def ex_vars_def arg_def js_or_def)

lemma ex_slice_next:
  "slice_next ex_rt ex_cfg ex_providers ex_vars ex_store ex_slice =
     (ex_vars\<lparr>count_var := JNum 2\<rparr>, ex_store_next, Inr ex_endpoint)"
proof -
  have h: "buildHeaders ex_cfg ex_providers ex_ctx = ex_headers"
    by (rule ex_buildHeaders)
  have n: "child_name (js_index [ex_child ''t3_a'' False, ex_child ''t3_c'' False] 1)
      = Inr (JStr ''t3_c'')"
    by (simp add: js_index_def child_name_def ex_child_def)
  have s: "set_arg (set_arg (set_arg ex_store 0 ''before'' JNull) 0 ''after'' (JStr ''t3_c''))
       0 ''count'' (JNum 2) = ex_store_next"
    by (simp add: set_arg_def ex_store_def ex_store_next_def)
  show ?thesis
    by (simp add: slice_next_def ex_slice_def ex_endpoint_def ex_vars_def Endpoint_def n h s)
qed

text \<open>
  C7. Take a listing started by \<open>getListing\<close> on an endpoint, any calls made on it
  since, and a slice built by \<open>getSlice\<close> that has at least one non-stickied child.
  \<open>next()\<close> on that slice does not throw: it hands \<open>getSlice\<close> an endpoint whose args
  have \<open>after\<close> equal to the name of the last non-stickied child, \<open>before\<close> null and
  \<open>count\<close> equal to the running count plus \<open>limit\<close>, where \<open>limit\<close> is \<open>args.limit\<close>
  of the original endpoint, or 25 when that is missing (or falsy); the running count
  becomes that sum.
\<close>

theorem next_requests_after_last:
  assumes "nav_run rt cfg (getListing_vars st0 e0) st0 calls = (vars, st)"
    and "getSlice_then vars1 e resolved = Inr s"
    and "s_children s \<noteq> []"
  shows "\<exists>name st' e'.
           child_name (last (s_children s)) = Inr name
         \<and> slice_next rt cfg w vars st s =
             (vars\<lparr>count_var := js_plus rt (count_var vars)
                      (js_or (arg (st0 (args e0)) ''limit'') (JNum 25))\<rparr>, st', Inr e')
         \<and> arg (st' (args e')) ''after'' = name
         \<and> arg (st' (args e')) ''before'' = JNull
         \<and> arg (st' (args e')) ''count'' =
             js_plus rt (count_var vars) (js_or (arg (st0 (args e0)) ''limit'') (JNum 25))"
proof -
  have l: "limit_var vars = js_or (arg (st0 (args e0)) ''limit'') (JNum 25)"
    using nav_run_keeps [OF assms(1)] by (simp add: getListing_vars_simps)
  have "last (s_children s) \<in> set (s_children s)"
    using assms(3) by simp
  then obtain name where n: "child_name (last (s_children s)) = Inr name"
    using built_child_name [OF assms(2)] by blast
  show ?thesis
    using n l assms(3)
    by (simp add: slice_next_def Let_def js_index_last Endpoint_def set_arg_apply arg_update)
qed

theorem next_requests_after_last_witness:
  "nav_run ex_rt ex_cfg (getListing_vars ex_store ex_endpoint) ex_store
     [(Next, ex_providers, ex_slice)] = (ex_vars\<lparr>count_var := JNum 2\<rparr>, ex_store_next)
   \<and> getSlice_then ex_vars ex_endpoint ex_listing = Inr ex_slice
   \<and> s_children ex_slice \<noteq> []
   \<and> (\<exists>st' e'.
         slice_next ex_rt ex_cfg ex_providers (ex_vars\<lparr>count_var := JNum 2\<rparr>) ex_store_next
           ex_slice = (ex_vars\<lparr>count_var := JNum 4\<rparr>, st', Inr e')
       \<and> arg (st' (args e')) ''after'' = JStr ''t3_c''
       \<and> arg (st' (args e')) ''before'' = JNull
       \<and> arg (st' (args e')) ''count'' = JNum 4)"
proof -
  have r: "nav_run ex_rt ex_cfg (getListing_vars ex_store ex_endpoint) ex_store
     [(Next, ex_providers, ex_slice)] = (ex_vars\<lparr>count_var := JNum 2\<rparr>, ex_store_next)"
    by (simp add: ex_getListing_vars ex_slice_next)
  have c: "s_children ex_slice \<noteq> []"
    by (simp add: ex_slice_def)
  have n: "child_name (last (s_children ex_slice)) = Inr (JStr ''t3_c'')"
    by (simp add: ex_slice_def child_name_def ex_child_def)
  have l: "js_plus ex_rt (count_var (ex_vars\<lparr>count_var := JNum 2\<rparr>))
      (js_or (arg (ex_store (args ex_endpoint)) ''limit'') (JNum 25)) = JNum 4"
    by (simp add: ex_store_def ex_endpoint_def arg_def js_or_def)
  have "\<exists>st' e'.
         slice_next ex_rt ex_cfg ex_providers (ex_vars\<lparr>count_var := JNum 2\<rparr>) ex_store_next
           ex_slice = (ex_vars\<lparr>count_var := JNum 4\<rparr>, st', Inr e')
       \<and> arg (st' (args e')) ''after'' = JStr ''t3_c''
       \<and> arg (st' (args e')) ''before'' = JNull
       \<and> arg (st' (args e')) ''count'' = JNum 4"
    using next_requests_after_last [OF r ex_getSlice_then c, where w = ex_providers]
    unfolding n l by auto
  with r ex_getSlice_then c show ?thesis
    by (intro conjI)
qed

text \<open>
  C8. After any sequence of \<open>next()\<close>, \<open>previous()\<close> and \<open>start()\<close> calls on a listing
  (whatever slices they are made on, and whether or not they throw), \<open>start()\<close> on any
  slice resets the running count to 0 and hands \<open>getSlice\<close> an endpoint whose args have
  \<open>count\<close> 0, \<open>before\<close> null and \<open>after\<close> equal to the cursor that \<open>getListing\<close>
  captured when it was called: \<open>args.after\<close> of the original endpoint, or null.
\<close>

theorem start_resets_cursor:
  assumes "nav_run rt cfg (getListing_vars st0 e0) st0 calls = (vars, st)"
  shows "\<exists>st' e'.
           slice_start cfg w vars st s = (vars\<lparr>count_var := JNum 0\<rparr>, st', Inr e')
         \<and> arg (st' (args e')) ''count'' = JNum 0
         \<and> arg (st' (args e')) ''after'' = js_or (arg (st0 (args e0)) ''after'') JNull
         \<and> arg (st' (args e')) ''before'' = JNull"
proof -
  have "start_var vars = js_or (arg (st0 (args e0)) ''after'') JNull"
    using nav_run_keeps [OF assms] by (simp add: getListing_vars_simps)
  then show ?thesis
    by (simp add: slice_start_def Let_def Endpoint_def set_arg_apply arg_update)
qed

theorem start_resets_cursor_witness:
  "nav_run ex_rt ex_cfg (getListing_vars ex_store_cursor ex_endpoint) ex_store_cursor ex_calls =
     (fst (nav_run ex_rt ex_cfg (getListing_vars ex_store_cursor ex_endpoint) ex_store_cursor
        ex_calls),
      snd (nav_run ex_rt ex_cfg (getListing_vars ex_store_cursor ex_endpoint) ex_store_cursor
        ex_calls))
   \<and> (\<exists>vars' st' e'.
         slice_start ex_cfg ex_providers
           (fst (nav_run ex_rt ex_cfg (getListing_vars ex_store_cursor ex_endpoint)
              ex_store_cursor ex_calls))
           (snd (nav_run ex_rt ex_cfg (getListing_vars ex_store_cursor ex_endpoint)
              ex_store_cursor ex_calls))
           ex_slice = (vars', st', Inr e')
       \<and> count_var vars' = JNum 0
       \<and> arg (st' (args e')) ''count'' = JNum 0
       \<and> arg (st' (args e')) ''after'' = JStr ''t3_z''
       \<and> arg (st' (args e')) ''before'' = JNull)"
proof -
  let ?run = "nav_run ex_rt ex_cfg (getListing_vars ex_store_cursor ex_endpoint)
     ex_store_cursor ex_calls"
  have r: "?run = (fst ?run, snd ?run)"
    by simp
  have a: "js_or (arg (ex_store_cursor (args ex_endpoint)) ''after'') JNull = JStr ''t3_z''"
    by (simp add: ex_store_cursor_def ex_endpoint_def arg_def js_or_def)
  from start_resets_cursor [OF r, where w = ex_providers and s = ex_slice]
  obtain st' e' where
    "slice_start ex_cfg ex_providers (fst ?run) (snd ?run) ex_slice =
       ((fst ?run)\<lparr>count_var := JNum 0\<rparr>, st', Inr e')"
    "arg (st' (args e')) ''count'' = JNum 0"
    "arg (st' (args e')) ''after'' = JStr ''t3_z''"
    "arg (st' (args e')) ''before'' = JNull"
    unfolding a by blast
  then have "\<exists>vars' st' e'.
         slice_start ex_cfg ex_providers (fst ?run) (snd ?run) ex_slice = (vars', st', Inr e')
       \<and> count_var vars' = JNum 0
       \<and> arg (st' (args e')) ''count'' = JNum 0
       \<and> arg (st' (args e')) ''after'' = JStr ''t3_z''
       \<and> arg (st' (args e')) ''before'' = JNull"
    by simp
  with r show ?thesis
    by blast
qed

lemma ex_getSlice_then_pinned:
  "getSlice_then ex_vars ex_endpoint ex_listing_pinned = Inr ex_slice_pinned"
  by (simp add: getSlice_then_def ex_listing_pinned_def ex_child_def ex_slice_pinned_def
      ex_vars_def js_or_def child_not_stickied_def child_stickied_def ex_endpoint_def ex_ctx_def)

lemma ex_slice_previous:
  "slice_previous ex_rt ex_cfg ex_providers ex_vars ex_store ex_slice =
     (ex_vars\<lparr>count_var := JNum (- 2)\<rparr>, ex_store_previous, Inr ex_endpoint)"
proof -
  have h: "buildHeaders ex_cfg ex_providers ex_ctx = ex_headers"
    by (rule ex_buildHeaders)
  have n: "child_name (js_index [ex_child ''t3_a'' False, ex_child ''t3_c'' False] 0)
      = Inr (JStr ''t3_a'')"
    by (simp add: js_index_def child_name_def ex_child_def)
  have s: "set_arg (set_arg (set_arg ex_store 0 ''before'' (JStr ''t3_a'')) 0 ''after'' JNull)
       0 ''count'' (JNum (- 2)) = ex_store_previous"
    by (simp add: set_arg_def ex_store_def ex_store_previous_def)
  show ?thesis
    by (simp add: slice_previous_def ex_slice_def ex_endpoint_def ex_vars_def Endpoint_def n h s)
qed

lemma ex_slice_start:
  "slice_start ex_cfg ex_providers ex_vars ex_store ex_slice =
     (ex_vars\<lparr>count_var := JNum 0\<rparr>, ex_store_start, Inr ex_endpoint)"
proof -
  have h: "buildHeaders ex_cfg ex_providers ex_ctx = ex_headers"
    by (rule ex_buildHeaders)
  have s: "set_arg (set_arg (set_arg ex_store 0 ''before'' JNull) 0 ''after'' JNull)
       0 ''count'' (JNum 0) = ex_store_start"
    by (simp add: set_arg_def ex_store_def ex_store_start_def)
  show ?thesis
    by (simp add: slice_start_def ex_slice_def ex_endpoint_def ex_vars_def Endpoint_def h s)
qed

lemma ex_slice_next_pinned:
  "slice_next ex_rt ex_cfg ex_providers ex_vars ex_store ex_slice_pinned =
     (ex_vars\<lparr>count_var := JNum 2\<rparr>, ex_store_before, Inl TypeError)"
proof -
  have s: "set_arg ex_store 0 ''before'' JNull = ex_store_before"
    by (simp add: set_arg_def ex_store_def ex_store_before_def)
  show ?thesis
    by (simp add: slice_next_def ex_slice_pinned_def ex_endpoint_def ex_vars_def js_index_def
        child_name_def s)
qed

lemma ex_slice_previous_pinned:
  "slice_previous ex_rt ex_cfg ex_providers ex_vars ex_store ex_slice_pinned =
     (ex_vars\<lparr>count_var := JNum (- 2)\<rparr>, ex_store, Inl TypeError)"
  by (simp add: slice_previous_def ex_slice_pinned_def ex_endpoint_def ex_vars_def js_index_def
      child_name_def)

lemma child_name_undefined: "child_name JUndefined = Inl TypeError"
  by (simp add: child_name_def)

lemma js_index_Nil: "js_index [] i = JUndefined"
  by (auto simp: js_index_def)

text \<open>
  C9, as stated, fails: each navigation action writes into the args object of the
  slice's own endpoint. In the example the object held only \<open>limit\<close> when the slice was
  requested; after \<open>next()\<close> it holds \<open>before\<close>, \<open>after\<close> and \<open>count\<close> as well, and
  it is with these that \<open>requery()\<close> then hands the same endpoint to \<open>getSlice\<close>. The
  same holds after \<open>previous()\<close> and after \<open>start()\<close>.
\<close>

theorem navigation_frame_counterexample:
  "getSlice_then ex_vars ex_endpoint ex_listing = Inr ex_slice
   \<and> slice_next ex_rt ex_cfg ex_providers ex_vars ex_store ex_slice =
       (ex_vars\<lparr>count_var := JNum 2\<rparr>, ex_store_next, Inr ex_endpoint)
   \<and> slice_requery (ex_vars\<lparr>count_var := JNum 2\<rparr>) ex_store_next ex_slice =
       (ex_vars\<lparr>count_var := JNum 2\<rparr>, ex_store_next, Inr ex_endpoint)
   \<and> ex_store (args (s_endpoint ex_slice)) = [(''limit'', JNum 2)]
   \<and> ex_store_next (args (s_endpoint ex_slice)) =
       [(''limit'', JNum 2), (''before'', JNull), (''after'', JStr ''t3_c''),
        (''count'', JNum 2)]
   \<and> arg (ex_store (args ex_endpoint)) ''after'' = JUndefined
   \<and> arg (ex_store_next (args ex_endpoint)) ''after'' = JStr ''t3_c''
   \<and> slice_previous ex_rt ex_cfg ex_providers ex_vars ex_store ex_slice =
       (ex_vars\<lparr>count_var := JNum (- 2)\<rparr>, ex_store_previous, Inr ex_endpoint)
   \<and> ex_store_previous (args (s_endpoint ex_slice)) =
       [(''limit'', JNum 2), (''before'', JStr ''t3_a''), (''after'', JNull),
        (''count'', JNum (- 2))]
   \<and> slice_start ex_cfg ex_providers ex_vars ex_store ex_slice =
       (ex_vars\<lparr>count_var := JNum 0\<rparr>, ex_store_start, Inr ex_endpoint)
   \<and> ex_store_start (args (s_endpoint ex_slice)) =
       [(''limit'', JNum 2), (''before'', JNull), (''after'', JNull), (''count'', JNum 0)]"
proof -
  have e: "args (s_endpoint ex_slice) = 0" "args ex_endpoint = 0"
    "s_endpoint ex_slice = ex_endpoint"
    by (simp_all add: ex_slice_def ex_endpoint_def)
  have q: "slice_requery (ex_vars\<lparr>count_var := JNum 2\<rparr>) ex_store_next ex_slice =
       (ex_vars\<lparr>count_var := JNum 2\<rparr>, ex_store_next, Inr ex_endpoint)"
    by (simp add: slice_requery_def e)
  have s: "ex_store 0 = [(''limit'', JNum 2)]"
    "ex_store_next 0 =
       [(''limit'', JNum 2), (''before'', JNull), (''after'', JStr ''t3_c''),
        (''count'', JNum 2)]"
    by (simp_all add: ex_store_def ex_store_next_def)
  have a: "arg (ex_store 0) ''after'' = JUndefined"
    "arg (ex_store_next 0) ''after'' = JStr ''t3_c''"
    unfolding s by (simp_all add: arg_def)
  have p: "ex_store_previous 0 =
       [(''limit'', JNum 2), (''before'', JStr ''t3_a''), (''after'', JNull),
        (''count'', JNum (- 2))]"
    by (simp add: ex_store_previous_def)
  have t: "ex_store_start 0 =
       [(''limit'', JNum 2), (''before'', JNull), (''after'', JNull), (''count'', JNum 0)]"
    by (simp add: ex_store_start_def)
  show ?thesis
    unfolding e
    using ex_getSlice_then ex_slice_next q s a ex_slice_previous p ex_slice_start t
    by (intro conjI)
qed

text \<open>
  C9, amended. On a slice built by \<open>getSlice\<close>, the navigation actions do not leave the
  args object of the slice's own endpoint unchanged: they write into it in place.
  \<open>start()\<close> sets the running count to 0 and writes \<open>before\<close> = null, \<open>after\<close> = the
  start cursor and \<open>count\<close> = 0. \<open>next()\<close> adds \<open>limit\<close> to the running count and writes
  \<open>before\<close> = null; when the slice has a non-stickied child it also writes \<open>after\<close> =
  the name of the last one and \<open>count\<close> = the new running count, and otherwise it throws
  a TypeError with \<open>after\<close> and \<open>count\<close> as they were. \<open>previous()\<close> subtracts \<open>limit\<close>
  from the running count; when the slice has a non-stickied child it writes \<open>before\<close> =
  the name of the first one, \<open>after\<close> = null and \<open>count\<close> = the new running count, and
  otherwise it throws a TypeError with the store as it was. No other key of that args
  object, no other args object, and neither \<open>limit\<close> nor the start cursor is changed.
  Whenever the action does not throw (\<open>start()\<close> always, the others on a slice with a
  non-stickied child) it hands \<open>getSlice\<close> a new endpoint with the hostname, method,
  path, contextOptions and port of the slice's endpoint and recomputed headers.
  \<open>requery()\<close> afterwards hands \<open>getSlice\<close> the slice's own endpoint and writes
  nothing: the args object of that endpoint is as the navigation left it.
\<close>

theorem navigation_writes_args:
  assumes "getSlice_then vars1 e resolved = Inr s"
    and "navigate rt cfg n w vars st s = (vars', st', r)"
    and "a = args (s_endpoint s)"
  shows "(\<forall>a'. a' \<noteq> a \<longrightarrow> st' a' = st a')
     \<and> (\<forall>k. k \<notin> {''before'', ''after'', ''count''} \<longrightarrow> arg (st' a) k = arg (st a) k)
     \<and> limit_var vars' = limit_var vars \<and> start_var vars' = start_var vars
     \<and> (n = Start \<longrightarrow>
          count_var vars' = JNum 0
          \<and> arg (st' a) ''before'' = JNull
          \<and> arg (st' a) ''after'' = start_var vars
          \<and> arg (st' a) ''count'' = JNum 0)
     \<and> (n = Next \<longrightarrow>
          count_var vars' = js_plus rt (count_var vars) (limit_var vars)
          \<and> arg (st' a) ''before'' = JNull
          \<and> (if s_children s = []
              then r = Inl TypeError
                \<and> arg (st' a) ''after'' = arg (st a) ''after''
                \<and> arg (st' a) ''count'' = arg (st a) ''count''
              else child_name (last (s_children s)) = Inr (arg (st' a) ''after'')
                \<and> arg (st' a) ''count'' = count_var vars'))
     \<and> (n = Previous \<longrightarrow>
          count_var vars' = js_minus rt (count_var vars) (limit_var vars)
          \<and> (if s_children s = []
              then r = Inl TypeError \<and> st' = st
              else child_name (hd (s_children s)) = Inr (arg (st' a) ''before'')
                \<and> arg (st' a) ''after'' = JNull
                \<and> arg (st' a) ''count'' = count_var vars'))
     \<and> (n = Start \<or> s_children s \<noteq> [] \<longrightarrow>
          (\<exists>e'. r = Inr e'
             \<and> hostname e' = hostname (s_endpoint s)
             \<and> method_name e' = method_name (s_endpoint s)
             \<and> path e' = path (s_endpoint s)
             \<and> contextOptions e' = contextOptions (s_endpoint s)
             \<and> port e' = port (s_endpoint s)
             \<and> headers e' = buildHeaders cfg w (contextOptions (s_endpoint s))))
     \<and> slice_requery vars' st' s = (vars', st', Inr (s_endpoint s))"
proof (cases n)
  case Start
  then show ?thesis
    using assms(2,3)
    by (auto simp: slice_start_def Let_def set_arg_apply arg_update Endpoint_def
        slice_requery_def)
next
  case Next
  show ?thesis
  proof (cases "s_children s = []")
    case True
    then show ?thesis
      using Next assms(2,3)
      by (auto simp: slice_next_def Let_def js_index_Nil child_name_undefined set_arg_apply
          arg_update slice_requery_def)
  next
    case False
    then have "last (s_children s) \<in> set (s_children s)"
      by simp
    then obtain name where "child_name (last (s_children s)) = Inr name"
      using built_child_name [OF assms(1)] by blast
    then show ?thesis
      using False Next assms(2,3)
      by (auto simp: slice_next_def Let_def js_index_last set_arg_apply arg_update Endpoint_def
          slice_requery_def)
  qed
next
  case Previous
  show ?thesis
  proof (cases "s_children s = []")
    case True
    then show ?thesis
      using Previous assms(2,3)
      by (auto simp: slice_previous_def Let_def js_index_Nil child_name_undefined
          slice_requery_def)
  next
    case False
    then have "hd (s_children s) \<in> set (s_children s)"
      by simp
    then obtain name where "child_name (hd (s_children s)) = Inr name"
      using built_child_name [OF assms(1)] by blast
    then show ?thesis
      using False Previous assms(2,3)
      by (auto simp: slice_previous_def Let_def js_index_first set_arg_apply arg_update
          Endpoint_def slice_requery_def)
  qed
qed

theorem navigation_writes_args_witness:
  "getSlice_then ex_vars ex_endpoint ex_listing = Inr ex_slice
   \<and> getSlice_then ex_vars ex_endpoint ex_listing_pinned = Inr ex_slice_pinned
   \<and> navigate ex_rt ex_cfg Next ex_providers ex_vars ex_store ex_slice =
       (ex_vars\<lparr>count_var := JNum 2\<rparr>, ex_store_next, Inr ex_endpoint)
   \<and> arg (ex_store_next 0) ''before'' = JNull
   \<and> child_name (last (s_children ex_slice)) = Inr (arg (ex_store_next 0) ''after'')
   \<and> arg (ex_store_next 0) ''count'' = JNum 2
   \<and> arg (ex_store_next 0) ''limit'' = arg (ex_store 0) ''limit''
   \<and> ex_store_next 1 = ex_store 1
   \<and> headers ex_endpoint = buildHeaders ex_cfg ex_providers (contextOptions ex_endpoint)
   \<and> slice_requery (ex_vars\<lparr>count_var := JNum 2\<rparr>) ex_store_next ex_slice =
       (ex_vars\<lparr>count_var := JNum 2\<rparr>, ex_store_next, Inr ex_endpoint)
   \<and> navigate ex_rt ex_cfg Previous ex_providers ex_vars ex_store ex_slice =
       (ex_vars\<lparr>count_var := JNum (- 2)\<rparr>, ex_store_previous, Inr ex_endpoint)
   \<and> child_name (hd (s_children ex_slice)) = Inr (arg (ex_store_previous 0) ''before'')
   \<and> arg (ex_store_previous 0) ''after'' = JNull
   \<and> arg (ex_store_previous 0) ''count'' = JNum (- 2)
   \<and> navigate ex_rt ex_cfg Start ex_providers ex_vars ex_store ex_slice =
       (ex_vars\<lparr>count_var := JNum 0\<rparr>, ex_store_start, Inr ex_endpoint)
   \<and> arg (ex_store_start 0) ''before'' = JNull
   \<and> arg (ex_store_start 0) ''after'' = start_var ex_vars
   \<and> arg (ex_store_start 0) ''count'' = JNum 0
   \<and> navigate ex_rt ex_cfg Next ex_providers ex_vars ex_store ex_slice_pinned =
       (ex_vars\<lparr>count_var := JNum 2\<rparr>, ex_store_before, Inl TypeError)
   \<and> arg (ex_store_before 0) ''before'' = JNull
   \<and> arg (ex_store_before 0) ''after'' = arg (ex_store 0) ''after''
   \<and> arg (ex_store_before 0) ''count'' = arg (ex_store 0) ''count''
   \<and> navigate ex_rt ex_cfg Previous ex_providers ex_vars ex_store ex_slice_pinned =
       (ex_vars\<lparr>count_var := JNum (- 2)\<rparr>, ex_store, Inl TypeError)"
proof -
  have a: "0 = args (s_endpoint ex_slice)" "0 = args (s_endpoint ex_slice_pinned)"
    by (simp_all add: ex_slice_def ex_slice_pinned_def ex_endpoint_def)
  have e: "s_endpoint ex_slice = ex_endpoint"
    by (simp add: ex_slice_def)
  have c: "s_children ex_slice \<noteq> []" "s_children ex_slice_pinned = []"
    by (simp_all add: ex_slice_def ex_slice_pinned_def)
  have k: "''limit'' \<notin> {''before'', ''after'', ''count''}" "(1::nat) \<noteq> 0"
    by simp_all
  have nx: "navigate ex_rt ex_cfg Next ex_providers ex_vars ex_store ex_slice =
       (ex_vars\<lparr>count_var := JNum 2\<rparr>, ex_store_next, Inr ex_endpoint)"
    by (simp add: ex_slice_next)
  have pv: "navigate ex_rt ex_cfg Previous ex_providers ex_vars ex_store ex_slice =
       (ex_vars\<lparr>count_var := JNum (- 2)\<rparr>, ex_store_previous, Inr ex_endpoint)"
    by (simp add: ex_slice_previous)
  have sr: "navigate ex_rt ex_cfg Start ex_providers ex_vars ex_store ex_slice =
       (ex_vars\<lparr>count_var := JNum 0\<rparr>, ex_store_start, Inr ex_endpoint)"
    by (simp add: ex_slice_start)
  have np: "navigate ex_rt ex_cfg Next ex_providers ex_vars ex_store ex_slice_pinned =
       (ex_vars\<lparr>count_var := JNum 2\<rparr>, ex_store_before, Inl TypeError)"
    by (simp add: ex_slice_next_pinned)
  have pp: "navigate ex_rt ex_cfg Previous ex_providers ex_vars ex_store ex_slice_pinned =
       (ex_vars\<lparr>count_var := JNum (- 2)\<rparr>, ex_store, Inl TypeError)"
    by (simp add: ex_slice_previous_pinned)
  note f1 = navigation_writes_args [OF ex_getSlice_then nx a(1)]
  note f2 = navigation_writes_args [OF ex_getSlice_then pv a(1)]
  note f3 = navigation_writes_args [OF ex_getSlice_then sr a(1)]
  note f4 = navigation_writes_args [OF ex_getSlice_then_pinned np a(2)]
  have 1: "arg (ex_store_next 0) ''before'' = JNull"
    "child_name (last (s_children ex_slice)) = Inr (arg (ex_store_next 0) ''after'')"
    "arg (ex_store_next 0) ''count'' = JNum 2"
    using f1 c(1) by simp_all
  have 2: "arg (ex_store_next 0) ''limit'' = arg (ex_store 0) ''limit''"
    "ex_store_next 1 = ex_store 1"
    using f1 k by simp_all
  have 3: "headers ex_endpoint = buildHeaders ex_cfg ex_providers (contextOptions ex_endpoint)"
    using f1 c(1) by (simp add: e)
  have 4: "slice_requery (ex_vars\<lparr>count_var := JNum 2\<rparr>) ex_store_next ex_slice =
       (ex_vars\<lparr>count_var := JNum 2\<rparr>, ex_store_next, Inr ex_endpoint)"
    using f1 by (simp add: e ex_vars_def)
  have 5: "child_name (hd (s_children ex_slice)) = Inr (arg (ex_store_previous 0) ''before'')"
    "arg (ex_store_previous 0) ''after'' = JNull"
    "arg (ex_store_previous 0) ''count'' = JNum (- 2)"
    using f2 c(1) by simp_all
  have 6: "arg (ex_store_start 0) ''before'' = JNull"
    "arg (ex_store_start 0) ''after'' = start_var ex_vars"
    "arg (ex_store_start 0) ''count'' = JNum 0"
    using f3 by simp_all
  have 7: "arg (ex_store_before 0) ''before'' = JNull"
    "arg (ex_store_before 0) ''after'' = arg (ex_store 0) ''after''"
    "arg (ex_store_before 0) ''count'' = arg (ex_store 0) ''count''"
    using f4 c(2) by simp_all
  from ex_getSlice_then ex_getSlice_then_pinned nx 1 2 3 4 pv 5 sr 6 np 7 pp
  show ?thesis
    by (intro conjI)
qed

end
